theory Spec2Isabelle
  imports Main "HOL-Library.AList" "HOL-Library.Sublist"
begin

section \<open>The Python values the wrapper works with\<close>

text \<open>
  The module \<^verbatim>\<open>llama_hub/tools/recursive_retriever/base.py\<close> is glue over the
  indexing framework: every object it handles is built by a framework constructor and
  handed on to the next one. A framework object is represented by the call that builds
  it, with the arguments the source passes, so that the object graph the constructor
  wires together can be read back from its result.
\<close>

datatype error =
    ValueError string
  | KeyError string
  | IndexError string
  | FrameworkError string

text \<open>
  Modelled from the spec: \<open>Document\<close> is a class of the framework, "an opaque unit of
  source text with metadata"; the wrapper never looks inside one.
\<close>

datatype document = Document (doc_text: string) (doc_metadata: "(string \<times> string) list")

text \<open>
  Modelled from the spec: \<open>ServiceContext\<close> is a class of the framework, the "shared
  runtime configuration object (embedding model, language model, ...)". The wrapper reads
  one attribute of it, \<open>service_context.llm\<close>.
\<close>

record service_context =
  llm :: string
  embed_model :: string

text \<open>\<open>IndexNode(text=..., index_id=...)\<close>: a routing node.\<close>

datatype index_node = IndexNode (node_text: string) (index_id: string)

text \<open>
  \<open>VectorStoreIndex.from_documents(documents, service_context=...)\<close> and
  \<open>SummaryIndex.from_documents(documents, service_context=...)\<close>: the two indices over
  one key's documents; \<open>.as_query_engine()\<close> on either.
\<close>

datatype document_index =
    VectorStoreIndex_from_documents "document list" service_context
  | SummaryIndex_from_documents "document list" service_context

datatype query_engine = as_query_engine document_index

text \<open>\<open>ToolMetadata(name=..., description=...)\<close> and
  \<open>QueryEngineTool(query_engine=..., metadata=...)\<close>.\<close>

datatype tool_metadata = ToolMetadata (name: string) (description: string)

datatype query_engine_tool =
  QueryEngineTool (tool_query_engine: query_engine) (metadata: tool_metadata)

text \<open>
  The constructor's \<open>agent\<close> argument (the parent agent on which \<open>from_tools\<close> is
  called) is opaque; a sub-agent is \<open>agent.from_tools(tools, llm=..., verbose=...)\<close>.
\<close>

datatype base_agent = BaseAgent string

datatype agent =
  from_tools (parent: base_agent) (tools: "query_engine_tool list") (agent_llm: string)
    (agent_verbose: bool)

text \<open>
  \<open>VectorStoreIndex(nodes, service_context=...)\<close>: the routing index, and
  \<open>.as_retriever(similarity_top_k=...)\<close> on it.
\<close>

datatype node_index = VectorStoreIndex (indexed_nodes: "index_node list") service_context

datatype retriever = as_retriever (retriever_index: node_index) (similarity_top_k: nat)

text \<open>\<open>RecursiveRetriever(root_id, retriever_dict=..., query_engine_dict=..., verbose=...)\<close>,
  \<open>get_response_synthesizer(service_context=..., response_mode=...)\<close> and
  \<open>RetrieverQueryEngine.from_args(retriever, response_synthesizer=..., service_context=...)\<close>.\<close>

datatype recursive_retriever =
  RecursiveRetriever (root_id: string) (retriever_dict: "(string \<times> retriever) list")
    (query_engine_dict: "(string \<times> agent) list") (rr_verbose: bool)

datatype response_synthesizer =
  get_response_synthesizer (synth_context: service_context) (response_mode: string)

datatype retriever_query_engine =
  RetrieverQueryEngine_from_args (rqe_retriever: recursive_retriever)
    (rqe_synthesizer: response_synthesizer) (rqe_context: service_context)

text \<open>The instance attributes set by \<open>__init__\<close>: \<open>self.query_engine\<close> and
  \<open>self.keys\<close> (the key view of the \<open>agents\<close> dict, in insertion order).\<close>

record recursive_retriever_tool_spec =
  query_engine :: retriever_query_engine
  keys :: "string list"

section \<open>Calls into the framework\<close>

text \<open>
  Every framework call may raise. A call is named by what it is asked to build or to do;
  the framework decides, from the calls made so far and the call at hand, whether it
  raises and with which exception. The calls made are recorded in order.
\<close>

datatype fw_call =
    ServiceContext_from_defaults
  | New_document_index document_index
  | New_query_engine query_engine
  | New_agent agent
  | New_node_index node_index
  | New_retriever retriever
  | New_recursive_retriever recursive_retriever
  | New_response_synthesizer response_synthesizer
  | New_retriever_query_engine retriever_query_engine
  | Retrieve retriever string
  | Agent_query string agent string
  | Synthesize response_synthesizer string "string list"

text \<open>
  The framework, as far as the wrapper depends on it. \<open>raises\<close> gives the exception of a
  call, if any. The other fields are what the framework computes: the context
  \<open>ServiceContext.from_defaults()\<close> returns, the similarity of a query text to a node
  text, the answer of an agent to a query, the text a response synthesizer makes of the
  answers it is given, and what a query does when routing finds no node at all.
\<close>

record framework =
  raises :: "fw_call list \<Rightarrow> fw_call \<Rightarrow> error option"
  default_context :: service_context
  similarity :: "string \<Rightarrow> string \<Rightarrow> int"
  agent_response :: "agent \<Rightarrow> string \<Rightarrow> string"
  synthesize :: "response_synthesizer \<Rightarrow> string \<Rightarrow> string list \<Rightarrow> string"
  no_match :: "string \<Rightarrow> error + string"

type_synonym 'a fw_m = "fw_call list \<Rightarrow> (error + 'a) \<times> fw_call list"

definition succeed :: "'a \<Rightarrow> 'a fw_m" where
  "succeed x = (\<lambda>tr. (Inr x, tr))"

definition raise :: "error \<Rightarrow> 'a fw_m" where
  "raise e = (\<lambda>tr. (Inl e, tr))"

text \<open>Sequencing, with no handler: an exception of the first part ends the whole.\<close>

definition and_then :: "'a fw_m \<Rightarrow> ('a \<Rightarrow> 'b fw_m) \<Rightarrow> 'b fw_m" where
  "and_then m f = (\<lambda>tr. case m tr of (Inl e, tr') \<Rightarrow> (Inl e, tr') | (Inr x, tr') \<Rightarrow> f x tr')"

definition invoke :: "framework \<Rightarrow> fw_call \<Rightarrow> 'a \<Rightarrow> 'a fw_m" where
  "invoke fw c res =
     (\<lambda>tr. (case raises fw tr c of Some e \<Rightarrow> Inl e | None \<Rightarrow> Inr res, tr @ [c]))"

text \<open>A constructor call: the object it is asked for is returned unless the call raises.\<close>

definition new :: "framework \<Rightarrow> ('a \<Rightarrow> fw_call) \<Rightarrow> 'a \<Rightarrow> 'a fw_m" where
  "new fw wrap obj = invoke fw (wrap obj) obj"

section \<open>The summary template and \<open>str.format\<close>\<close>

text \<open>
  \<open>DEFAULT_SUMMARY\<close>, a triple-quoted literal: it starts and ends with a newline.
\<close>

definition DEFAULT_SUMMARY :: string where
  "DEFAULT_SUMMARY =
     [CHR 0x0A] @ ''This content contains information about {key}.'' @
     [CHR 0x0A] @ ''Use this index if you need to lookup specific facts about {key}.'' @
     [CHR 0x0A] @ ''Do not use this index if you want to analyze multiple keys.'' @
     [CHR 0x0A]"

text \<open>
  \<open>template.format(key=key)\<close>, for templates whose replacement fields are plain names:
  literal text is copied, \<open>{{\<close> and \<open>}}\<close> stand for one brace, \<open>{key}\<close> is replaced by
  the key, any other name raises \<open>KeyError\<close>, an empty or numeric field raises
  \<open>IndexError\<close> (no positional argument is passed), and an unmatched brace raises
  \<open>ValueError\<close>. The scanner is in one of four places: in literal text, just after an
  opening brace, just after a closing brace, or inside a field whose name it collects.
\<close>

datatype format_state = Literal | After_open | After_close | In_field string

fun emit :: "string \<Rightarrow> error + string \<Rightarrow> error + string" where
  "emit s (Inr r) = Inr (s @ r)"
| "emit s (Inl e) = Inl e"

definition is_digit :: "char \<Rightarrow> bool" where
  "is_digit c = (c \<in> set ''0123456789'')"

fun format_from :: "format_state \<Rightarrow> string \<Rightarrow> string \<Rightarrow> error + string" where
  "format_from Literal [] key = Inr []"
| "format_from After_open [] key = Inl (ValueError ''Single '{' encountered in format string'')"
| "format_from After_close [] key = Inl (ValueError ''Single '}' encountered in format string'')"
| "format_from (In_field n) [] key = Inl (ValueError ''expected '}' before end of string'')"
| "format_from Literal (c # cs) key =
     (if c = CHR ''{'' then format_from After_open cs key
      else if c = CHR ''}'' then format_from After_close cs key
      else emit [c] (format_from Literal cs key))"
| "format_from After_open (c # cs) key =
     (if c = CHR ''{'' then emit [c] (format_from Literal cs key)
      else if c = CHR ''}'' then
        Inl (IndexError ''Replacement index 0 out of range for positional args tuple'')
      else format_from (In_field [c]) cs key)"
| "format_from After_close (c # cs) key =
     (if c = CHR ''}'' then emit [c] (format_from Literal cs key)
      else Inl (ValueError ''Single '}' encountered in format string''))"
| "format_from (In_field n) (c # cs) key =
     (if c = CHR ''}'' then
        (if n = ''key'' then emit key (format_from Literal cs key)
         else if list_all is_digit n then
           Inl (IndexError ''Replacement index out of range for positional args tuple'')
         else Inl (KeyError n))
      else format_from (In_field (n @ [c])) cs key)"

definition format_key :: "string \<Rightarrow> string \<Rightarrow> error + string" where
  "format_key template key = format_from Literal template key"

section \<open>The class \<open>RecursiveRetrieverToolSpec\<close>\<close>

text \<open>
  \<open>_create_subagent(self, documents, service_context, key, agent)\<close>. The two f-strings
  are the fixed text followed by the key.
\<close>

definition create_subagent ::
  "framework \<Rightarrow> document list \<Rightarrow> service_context \<Rightarrow> string \<Rightarrow> base_agent \<Rightarrow> agent fw_m" where
  "create_subagent fw documents sc key agent =
     and_then (new fw New_document_index (VectorStoreIndex_from_documents documents sc)) (\<lambda>vi.
     and_then (new fw New_query_engine (as_query_engine vi)) (\<lambda>vector_engine.
     and_then (new fw New_document_index (SummaryIndex_from_documents documents sc)) (\<lambda>si.
     and_then (new fw New_query_engine (as_query_engine si)) (\<lambda>summary_engine.
       let query_engine_tools =
         [QueryEngineTool vector_engine
            (ToolMetadata ''vector_tool''
               (''Useful for summarization questions related to '' @ key)),
          QueryEngineTool summary_engine
            (ToolMetadata ''summary_tool''
               (''Useful for retrieving specific context from '' @ key))]
       in new fw New_agent (from_tools agent query_engine_tools (llm sc) True)))))"

text \<open>
  The loop of \<open>__init__\<close> over \<open>agent_documents.items()\<close>. A dict is an association
  list in insertion order; \<open>agents[key] = ...\<close> is \<open>AList.update\<close> (a new key goes to the
  end, a known key keeps its place), \<open>nodes.append\<close> adds at the end.
\<close>

fun init_loop ::
  "framework \<Rightarrow> service_context \<Rightarrow> base_agent \<Rightarrow> (string \<times> document list) list \<Rightarrow>
   (string \<times> agent) list \<Rightarrow> index_node list \<Rightarrow> ((string \<times> agent) list \<times> index_node list) fw_m" where
  "init_loop fw sc agent [] agents nodes = succeed (agents, nodes)"
| "init_loop fw sc agent ((key, documents) # items) agents nodes =
     and_then (create_subagent fw documents sc key agent) (\<lambda>a.
     and_then (case format_key DEFAULT_SUMMARY key of Inl e \<Rightarrow> raise e | Inr s \<Rightarrow> succeed s) (\<lambda>summary.
       init_loop fw sc agent items (AList.update key a agents) (nodes @ [IndexNode summary key])))"

text \<open>\<open>__init__(self, agent_documents, agent, service_context=None)\<close>.\<close>

definition init ::
  "framework \<Rightarrow> (string \<times> document list) list \<Rightarrow> base_agent \<Rightarrow> service_context option \<Rightarrow>
   recursive_retriever_tool_spec fw_m" where
  "init fw agent_documents agent service_context =
     and_then (case service_context of
                 None \<Rightarrow> invoke fw ServiceContext_from_defaults (default_context fw)
               | Some sc \<Rightarrow> succeed sc) (\<lambda>sc.
     and_then (init_loop fw sc agent agent_documents [] []) (\<lambda>(agents, nodes).
     and_then (new fw New_node_index (VectorStoreIndex nodes sc)) (\<lambda>idx.
     and_then (new fw New_retriever (as_retriever idx 1)) (\<lambda>vector_retriever.
     and_then (new fw New_recursive_retriever
                 (RecursiveRetriever ''vector'' [(''vector'', vector_retriever)] agents True))
       (\<lambda>recursive_retriever.
     and_then (new fw New_response_synthesizer (get_response_synthesizer sc ''compact''))
       (\<lambda>response_synthesizer.
     and_then (new fw New_retriever_query_engine
                 (RetrieverQueryEngine_from_args recursive_retriever response_synthesizer sc))
       (\<lambda>qe.
     succeed \<lparr>query_engine = qe, keys = map fst agents\<rparr>)))))))"

text \<open>\<open>query_keys(self)\<close> returns \<open>self.keys\<close>.\<close>

definition query_keys :: "recursive_retriever_tool_spec \<Rightarrow> string list" where
  "query_keys self = keys self"

text \<open>
  Modelled from the spec: the retriever of the routing index, a part of the framework that
  is not in the repository. It "maps a free-text query to the single most relevant key":
  the nodes of the index are ranked by their similarity to the query, best first, and the
  first \<open>similarity_top_k\<close> of them are returned.
\<close>

definition retrieve :: "framework \<Rightarrow> retriever \<Rightarrow> string \<Rightarrow> index_node list" where
  "retrieve fw r q =
     take (similarity_top_k r)
       (sort_key (\<lambda>n. - similarity fw q (node_text n)) (indexed_nodes (retriever_index r)))"

text \<open>
  Modelled from the spec: the delegation step of the framework's recursive retriever, a
  part of the framework that is not in the repository: "forwarding the same query text
  to that key's sub-agent". A node whose identifier is no key of the sub-agent map is the
  failure "key-not-found during routing".
\<close>

fun delegate ::
  "framework \<Rightarrow> (string \<times> agent) list \<Rightarrow> string \<Rightarrow> index_node list \<Rightarrow> string list fw_m" where
  "delegate fw agents q [] = succeed []"
| "delegate fw agents q (n # ns) =
     and_then (case map_of agents (index_id n) of
                 None \<Rightarrow> raise (KeyError (index_id n))
               | Some a \<Rightarrow> invoke fw (Agent_query (index_id n) a q) (agent_response fw a q)) (\<lambda>answer.
     and_then (delegate fw agents q ns) (\<lambda>answers.
     succeed (answer # answers)))"

text \<open>
  Modelled from the spec: \<open>query\<close> of the framework's retriever query engine, a part of
  the framework that is not in the repository. Its state machine is "received query, resolve
  key (terminal if no key matches, behavior undefined), delegate to sub-agent, synthesize,
  return": the root retriever resolves the query, each node found is delegated, and the
  answers go through the response synthesizer. What happens when no key matches is left
  to the framework (\<open>no_match\<close>).
\<close>

fun RetrieverQueryEngine_query :: "framework \<Rightarrow> retriever_query_engine \<Rightarrow> string \<Rightarrow> string fw_m" where
  "RetrieverQueryEngine_query fw (RetrieverQueryEngine_from_args rr synth sc) q =
     (case map_of (retriever_dict rr) (root_id rr) of
        None \<Rightarrow> raise (KeyError (root_id rr))
      | Some r \<Rightarrow>
          and_then (invoke fw (Retrieve r q) (retrieve fw r q)) (\<lambda>found.
            if found = [] then (\<lambda>tr. (no_match fw q, tr))
            else
              and_then (delegate fw (query_engine_dict rr) q found) (\<lambda>answers.
              invoke fw (Synthesize synth q answers) (synthesize fw synth q answers))))"

text \<open>\<open>query(self, query)\<close> returns \<open>self.query_engine.query(query)\<close>.\<close>

definition query :: "framework \<Rightarrow> recursive_retriever_tool_spec \<Rightarrow> string \<Rightarrow> string fw_m" where
  "query fw self q = RetrieverQueryEngine_query fw (query_engine self) q"

section \<open>Reading the constructed object graph and the record of calls\<close>

text \<open>A dict has each key once.\<close>

definition is_dict :: "('k \<times> 'v) list \<Rightarrow> bool" where
  "is_dict d = distinct (map fst d)"

text \<open>The sub-agent map, the routing retriever and the routing nodes of a constructed
  tool spec, read from \<open>self.query_engine\<close>.\<close>

definition sub_agents :: "recursive_retriever_tool_spec \<Rightarrow> (string \<times> agent) list" where
  "sub_agents self = query_engine_dict (rqe_retriever (query_engine self))"

definition routing_retriever :: "recursive_retriever_tool_spec \<Rightarrow> retriever option" where
  "routing_retriever self =
     map_of (retriever_dict (rqe_retriever (query_engine self)))
       (root_id (rqe_retriever (query_engine self)))"

definition routing_nodes :: "recursive_retriever_tool_spec \<Rightarrow> index_node list" where
  "routing_nodes self =
     (case routing_retriever self of
        None \<Rightarrow> []
      | Some r \<Rightarrow> indexed_nodes (retriever_index r))"

text \<open>The sub-agents queried in a sequence of calls, each with its key, in order.\<close>

fun consulted :: "fw_call list \<Rightarrow> (string \<times> agent) list" where
  "consulted [] = []"
| "consulted (Agent_query k a q # cs) = (k, a) # consulted cs"
| "consulted (c # cs) = consulted cs"

text \<open>The exception an outcome carries, if any.\<close>

fun exception_of :: "error + 'a \<Rightarrow> error option" where
  "exception_of (Inl e) = Some e"
| "exception_of (Inr x) = None"

text \<open>
  \<open>propagated fw tr calls r\<close>: starting after the calls \<open>tr\<close>, the calls \<open>calls\<close> were
  made in order, every call but the last returned, and the last one either returned too
  (\<open>r = None\<close>) or raised the exception \<open>e\<close> (\<open>r = Some e\<close>). So no call follows a call
  that raised, and the exception is the one the framework raised.
\<close>

fun propagated :: "framework \<Rightarrow> fw_call list \<Rightarrow> fw_call list \<Rightarrow> error option \<Rightarrow> bool" where
  "propagated fw tr [] r = (r = None)"
| "propagated fw tr (c # cs) r =
     (case raises fw tr c of
        Some e \<Rightarrow> cs = [] \<and> r = Some e
      | None \<Rightarrow> propagated fw (tr @ [c]) cs r)"

text \<open>A computation propagates the framework's exceptions when every run of it does.\<close>

definition propagates :: "framework \<Rightarrow> 'a fw_m \<Rightarrow> bool" where
  "propagates fw m =
     (\<forall>tr r tr'. m tr = (r, tr') \<longrightarrow>
        (\<exists>calls. tr' = tr @ calls \<and> propagated fw tr calls (exception_of r)))"

text \<open>The summary text of the routing node of a key: the template with both fields
  filled in.\<close>

definition summary_text :: "string \<Rightarrow> string" where
  "summary_text key =
     [CHR 0x0A] @ ''This content contains information about '' @ key @ ''.'' @
     [CHR 0x0A] @ ''Use this index if you need to lookup specific facts about '' @ key @ ''.'' @
     [CHR 0x0A] @ ''Do not use this index if you want to analyze multiple keys.'' @
     [CHR 0x0A]"

text \<open>The sub-agent of a key, as \<open>create_subagent\<close> returns it when no call raises.\<close>

definition subagent_for :: "service_context \<Rightarrow> base_agent \<Rightarrow> string \<Rightarrow> document list \<Rightarrow> agent" where
  "subagent_for sc agent key documents =
     from_tools agent
       [QueryEngineTool (as_query_engine (VectorStoreIndex_from_documents documents sc))
          (ToolMetadata ''vector_tool''
             (''Useful for summarization questions related to '' @ key)),
        QueryEngineTool (as_query_engine (SummaryIndex_from_documents documents sc))
          (ToolMetadata ''summary_tool''
             (''Useful for retrieving specific context from '' @ key))]
       (llm sc) True"

section \<open>A concrete framework and input\<close>

text \<open>
  The spec's example scenario, \<open>{"alpha": [doc1], "beta": [doc2]}\<close>, on a framework
  in which no call raises, a node is similar to a query when the query text occurs in
  the node text, and agents and synthesizer answer with fixed texts.
\<close>

definition example_context :: service_context where
  "example_context = \<lparr>llm = ''llm'', embed_model = ''embed''\<rparr>"

definition example_framework :: framework where
  "example_framework =
     \<lparr>raises = (\<lambda>tr c. None),
      default_context = example_context,
      similarity = (\<lambda>q t. if sublist q t then 1 else 0),
      agent_response = (\<lambda>a q. ''answer of '' @ description (metadata (hd (tools a)))),
      synthesize = (\<lambda>s q answers. response_mode s @ '': '' @ concat answers),
      no_match = (\<lambda>q. Inr ''Empty Response'')\<rparr>"

definition example_documents :: "(string \<times> document list) list" where
  "example_documents =
     [(''alpha'', [Document ''doc1'' []]), (''beta'', [Document ''doc2'' []])]"

text \<open>The same framework, except that building the summary index of \<open>doc2\<close> raises.\<close>

definition failing_framework :: framework where
  "failing_framework =
     example_framework
       \<lparr>raises := (\<lambda>tr c.
          if c = New_document_index
                   (SummaryIndex_from_documents [Document ''doc2'' []] example_context)
          then Some (FrameworkError ''embedding failed'') else None)\<rparr>"

section \<open>Running the framework monad\<close>

lemma invoke_Inr [simp]:
  "invoke fw c x tr = (Inr y, tr') \<longleftrightarrow> raises fw tr c = None \<and> y = x \<and> tr' = tr @ [c]"
  by (auto simp: invoke_def split: option.splits)

lemma new_Inr [simp]:
  "new fw w x tr = (Inr y, tr') \<longleftrightarrow> raises fw tr (w x) = None \<and> y = x \<and> tr' = tr @ [w x]"
  by (simp add: new_def)

lemma succeed_Inr [simp]: "succeed x tr = (Inr y, tr') \<longleftrightarrow> y = x \<and> tr' = tr"
  by (auto simp: succeed_def)

lemma raise_Inr [simp]: "raise e tr \<noteq> (Inr y, tr')"
  by (simp add: raise_def)

lemma and_then_Inr [simp]:
  "and_then m f tr = (Inr y, tr') \<longleftrightarrow> (\<exists>x tr1. m tr = (Inr x, tr1) \<and> f x tr1 = (Inr y, tr'))"
  by (auto simp: and_then_def split: prod.splits sum.splits)

lemma propagated_append:
  "propagated fw tr cs1 None \<Longrightarrow> propagated fw (tr @ cs1) cs2 r \<Longrightarrow>
   propagated fw tr (cs1 @ cs2) r"
  by (induction cs1 arbitrary: tr) (auto split: option.splits)

lemma propagates_succeed: "propagates fw (succeed x)"
  by (simp add: propagates_def succeed_def)

lemma propagates_invoke: "propagates fw (invoke fw c x)"
  by (auto simp: propagates_def invoke_def split: option.splits)

lemma propagates_new: "propagates fw (new fw w x)"
  by (simp add: new_def propagates_invoke)

lemma propagates_and_then:
  assumes m: "propagates fw m" and f: "\<And>x. propagates fw (f x)"
  shows "propagates fw (and_then m f)"
  unfolding propagates_def
proof (intro allI impI)
  fix tr r tr'
  assume run: "and_then m f tr = (r, tr')"
  obtain r1 tr1 where m1: "m tr = (r1, tr1)" by (cases "m tr")
  with m obtain cs1 where cs1: "tr1 = tr @ cs1" "propagated fw tr cs1 (exception_of r1)"
    unfolding propagates_def by blast
  show "\<exists>calls. tr' = tr @ calls \<and> propagated fw tr calls (exception_of r)"
  proof (cases r1)
    case (Inl e)
    with run m1 have "r = Inl e" "tr' = tr1"
      by (auto simp: and_then_def)
    with cs1 Inl show ?thesis by auto
  next
    case (Inr x)
    with run m1 have "f x tr1 = (r, tr')"
      by (auto simp: and_then_def)
    with f [of x] obtain cs2 where "tr' = tr1 @ cs2" "propagated fw tr1 cs2 (exception_of r)"
      unfolding propagates_def by blast
    with cs1 Inr have "tr' = tr @ (cs1 @ cs2)" "propagated fw tr (cs1 @ cs2) (exception_of r)"
      by (auto intro: propagated_append)
    then show ?thesis by blast
  qed
qed

lemma quiet_example: "\<forall>h c. raises example_framework h c = None"
  by (simp add: example_framework_def)

section \<open>The summary template\<close>

lemma format_default: "format_key DEFAULT_SUMMARY key = Inr (summary_text key)"
  by (simp add: format_key_def DEFAULT_SUMMARY_def summary_text_def)

section \<open>The sub-agent factory\<close>

lemma create_subagent_Inr:
  "create_subagent fw documents sc key agent tr = (Inr a, tr') \<Longrightarrow>
   a = subagent_for sc agent key documents"
  by (auto simp: create_subagent_def Let_def subagent_for_def)

lemma quiet_create_subagent:
  assumes "\<forall>h c. raises fw h c = None"
  shows "\<exists>tr'. create_subagent fw documents sc key agent tr =
           (Inr (subagent_for sc agent key documents), tr')"
  using assms by (simp add: create_subagent_def Let_def subagent_for_def)

lemma propagates_create_subagent: "propagates fw (create_subagent fw documents sc key agent)"
  unfolding create_subagent_def Let_def
  by (intro propagates_and_then propagates_new)

text \<open>
  C3. For every key and document list, when \<open>_create_subagent\<close> returns an agent, the agent
  was made from exactly two tools: the first wraps the query engine of the vector index
  built from the given documents, the second the query engine of the summary index built
  from the same documents, and the key occurs in the description of either tool. It does
  return an agent whenever no framework call raises.
\<close>

theorem create_subagent_two_tools:
  "(\<forall>a tr'. create_subagent fw documents sc key agent tr = (Inr a, tr') \<longrightarrow>
      length (tools a) = 2 \<and>
      tool_query_engine (tools a ! 0) =
        as_query_engine (VectorStoreIndex_from_documents documents sc) \<and>
      tool_query_engine (tools a ! 1) =
        as_query_engine (SummaryIndex_from_documents documents sc) \<and>
      (\<forall>t \<in> set (tools a). sublist key (description (metadata t)))) \<and>
   ((\<forall>h c. raises fw h c = None) \<longrightarrow>
      (\<exists>a tr'. create_subagent fw documents sc key agent tr = (Inr a, tr')))"
proof (intro conjI allI impI)
  fix a tr'
  assume "create_subagent fw documents sc key agent tr = (Inr a, tr')"
  then have a: "a = subagent_for sc agent key documents"
    by (rule create_subagent_Inr)
  show "length (tools a) = 2"
    by (simp add: a subagent_for_def)
  show "tool_query_engine (tools a ! 0) =
          as_query_engine (VectorStoreIndex_from_documents documents sc)"
    by (simp add: a subagent_for_def)
  show "tool_query_engine (tools a ! 1) =
          as_query_engine (SummaryIndex_from_documents documents sc)"
    by (simp add: a subagent_for_def)
  show "\<forall>t \<in> set (tools a). sublist key (description (metadata t))"
    by (simp add: a subagent_for_def sublist_Cons_right)
next
  assume "\<forall>h c. raises fw h c = None"
  from quiet_create_subagent [OF this]
  show "\<exists>a tr'. create_subagent fw documents sc key agent tr = (Inr a, tr')"
    by blast
qed

theorem create_subagent_two_tools_witness:
  "\<exists>a tr'. create_subagent example_framework [Document ''doc1'' []] example_context ''alpha''
              (BaseAgent ''agent'') [] = (Inr a, tr') \<and>
     length (tools a) = 2 \<and>
     tool_query_engine (tools a ! 0) =
       as_query_engine (VectorStoreIndex_from_documents [Document ''doc1'' []] example_context) \<and>
     tool_query_engine (tools a ! 1) =
       as_query_engine (SummaryIndex_from_documents [Document ''doc1'' []] example_context) \<and>
     sublist ''alpha'' (description (metadata (tools a ! 0))) \<and>
     sublist ''alpha'' (description (metadata (tools a ! 1)))"
proof -
  note inst = create_subagent_two_tools [of example_framework "[Document ''doc1'' []]"
      example_context "''alpha''" "BaseAgent ''agent''" "[]"]
  from inst quiet_example obtain a tr' where
    run: "create_subagent example_framework [Document ''doc1'' []] example_context ''alpha''
            (BaseAgent ''agent'') [] = (Inr a, tr')"
    by blast
  with inst have props: "length (tools a) = 2"
    "tool_query_engine (tools a ! 0) =
       as_query_engine (VectorStoreIndex_from_documents [Document ''doc1'' []] example_context)"
    "tool_query_engine (tools a ! 1) =
       as_query_engine (SummaryIndex_from_documents [Document ''doc1'' []] example_context)"
    "\<forall>t \<in> set (tools a). sublist ''alpha'' (description (metadata t))"
    by blast+
  from props(1,4) have "sublist ''alpha'' (description (metadata (tools a ! 0)))"
    "sublist ''alpha'' (description (metadata (tools a ! 1)))"
    by (simp_all only: nth_mem)
  with run props(1-3) show ?thesis by blast
qed

text \<open>
  C10. For every key, the two tools handed to \<open>from_tools\<close> are named \<open>vector_tool\<close> and
  \<open>summary_tool\<close>, whatever the key. The tool named \<open>vector_tool\<close> wraps the engine of
  the vector index and is described as "Useful for summarization questions related to"
  the key; the tool named \<open>summary_tool\<close> wraps the engine of the summary index and is
  described as "Useful for retrieving specific context from" the key.
\<close>

theorem tool_names_and_descriptions:
  assumes "create_subagent fw documents sc key agent tr = (Inr a, tr')"
  shows "tools a =
     [QueryEngineTool (as_query_engine (VectorStoreIndex_from_documents documents sc))
        (ToolMetadata ''vector_tool''
           (''Useful for summarization questions related to '' @ key)),
      QueryEngineTool (as_query_engine (SummaryIndex_from_documents documents sc))
        (ToolMetadata ''summary_tool''
           (''Useful for retrieving specific context from '' @ key))]"
  using create_subagent_Inr [OF assms] by (simp add: subagent_for_def)

theorem tool_names_and_descriptions_witness:
  "\<exists>a tr'. create_subagent example_framework [Document ''doc2'' []] example_context ''beta''
              (BaseAgent ''agent'') [] = (Inr a, tr') \<and>
     map (\<lambda>t. (name (metadata t), description (metadata t))) (tools a) =
       [(''vector_tool'', ''Useful for summarization questions related to beta''),
        (''summary_tool'', ''Useful for retrieving specific context from beta'')]"
proof -
  from quiet_create_subagent [OF quiet_example] obtain tr' where
    run: "create_subagent example_framework [Document ''doc2'' []] example_context ''beta''
            (BaseAgent ''agent'') [] =
          (Inr (subagent_for example_context (BaseAgent ''agent'') ''beta'' [Document ''doc2'' []]),
           tr')"
    by blast
  from tool_names_and_descriptions [OF run] run show ?thesis
    by simp
qed

section \<open>Construction\<close>

lemma init_loop_Inr:
  "init_loop fw sc agent items agents nodes tr = (Inr (agents', nodes'), tr') \<Longrightarrow>
   nodes' = nodes @ map (\<lambda>(k, d). IndexNode (summary_text k) k) items \<and>
   agents' = fold (\<lambda>(k, d). AList.update k (subagent_for sc agent k d)) items agents"
proof (induction items arbitrary: agents nodes tr)
  case Nil
  then show ?case by simp
next
  case (Cons item items)
  obtain key documents where item: "item = (key, documents)" by (cases item)
  from Cons.prems obtain a tr1 where
    sub: "create_subagent fw documents sc key agent tr = (Inr a, tr1)" and
    rest: "init_loop fw sc agent items (AList.update key a agents)
             (nodes @ [IndexNode (summary_text key) key]) tr1 = (Inr (agents', nodes'), tr')"
    by (auto simp: item format_default)
  from sub have a: "a = subagent_for sc agent key documents"
    by (rule create_subagent_Inr)
  from Cons.IH [OF rest] show ?case
    by (simp add: item a)
qed

lemma init_Inr:
  assumes "init fw agent_documents agent service_context tr = (Inr self, tr')"
  shows "\<exists>sc. sc = (case service_context of None \<Rightarrow> default_context fw | Some c \<Rightarrow> c) \<and>
    self = \<lparr>query_engine =
        RetrieverQueryEngine_from_args
          (RecursiveRetriever ''vector''
             [(''vector'', as_retriever
                 (VectorStoreIndex
                    (map (\<lambda>(k, d). IndexNode (summary_text k) k) agent_documents) sc) 1)]
             (fold (\<lambda>(k, d). AList.update k (subagent_for sc agent k d)) agent_documents [])
             True)
          (get_response_synthesizer sc ''compact'') sc,
      keys = map fst
        (fold (\<lambda>(k, d). AList.update k (subagent_for sc agent k d)) agent_documents [])\<rparr>"
  using assms
  by (cases service_context) (auto simp: init_def dest!: init_loop_Inr)

lemma quiet_init_loop:
  assumes "\<forall>h c. raises fw h c = None"
  shows "\<exists>r tr'. init_loop fw sc agent items agents nodes tr = (Inr r, tr')"
proof (induction items arbitrary: agents nodes tr)
  case Nil
  show ?case by simp
next
  case (Cons item items)
  obtain k d where item: "item = (k, d)" by (cases item)
  from quiet_create_subagent [OF assms] obtain tr1 where
    "create_subagent fw d sc k agent tr = (Inr (subagent_for sc agent k d), tr1)" by blast
  moreover from Cons.IH obtain r tr' where
    "init_loop fw sc agent items (AList.update k (subagent_for sc agent k d) agents)
       (nodes @ [IndexNode (summary_text k) k]) tr1 = (Inr r, tr')" by blast
  ultimately show ?case
    by (auto simp: item format_default)
qed

lemma quiet_init:
  assumes "\<forall>h c. raises fw h c = None"
  shows "\<exists>self tr'. init fw agent_documents agent service_context tr = (Inr self, tr')"
proof -
  define sc where
    "sc = (case service_context of None \<Rightarrow> default_context fw | Some c \<Rightarrow> c)"
  define tr0 where
    "tr0 = (case service_context of None \<Rightarrow> tr @ [ServiceContext_from_defaults] | Some c \<Rightarrow> tr)"
  from quiet_init_loop [OF assms] obtain agents nodes tr1 where
    "init_loop fw sc agent agent_documents [] [] tr0 = (Inr (agents, nodes), tr1)"
    by (metis surj_pair)
  with assms show ?thesis
    by (cases service_context) (auto simp: init_def sc_def tr0_def)
qed

lemma example_init:
  "\<exists>self tr'. init example_framework example_documents (BaseAgent ''agent'') None [] =
     (Inr self, tr')"
  by (rule quiet_init [OF quiet_example])

lemma propagates_init_loop: "propagates fw (init_loop fw sc agent items agents nodes)"
proof (induction items arbitrary: agents nodes)
  case Nil
  show ?case by (simp add: propagates_succeed)
next
  case (Cons item items)
  obtain k d where item: "item = (k, d)" by (cases item)
  show ?case
    unfolding item init_loop.simps format_default sum.case
    by (intro propagates_and_then propagates_create_subagent propagates_succeed Cons.IH)
qed

lemma propagates_init: "propagates fw (init fw agent_documents agent service_context)"
  unfolding init_def
  by (cases service_context)
     (auto intro!: propagates_and_then propagates_new propagates_succeed propagates_invoke
        propagates_init_loop)

lemma failing_run:
  "init failing_framework example_documents (BaseAgent ''agent'') None [] =
     (Inl (FrameworkError ''embedding failed''),
      [ServiceContext_from_defaults,
       New_document_index (VectorStoreIndex_from_documents [Document ''doc1'' []] example_context),
       New_query_engine
         (as_query_engine (VectorStoreIndex_from_documents [Document ''doc1'' []] example_context)),
       New_document_index (SummaryIndex_from_documents [Document ''doc1'' []] example_context),
       New_query_engine
         (as_query_engine (SummaryIndex_from_documents [Document ''doc1'' []] example_context)),
       New_agent (subagent_for example_context (BaseAgent ''agent'') ''alpha'' [Document ''doc1'' []]),
       New_document_index (VectorStoreIndex_from_documents [Document ''doc2'' []] example_context),
       New_query_engine
         (as_query_engine (VectorStoreIndex_from_documents [Document ''doc2'' []] example_context)),
       New_document_index (SummaryIndex_from_documents [Document ''doc2'' []] example_context)])"
  by (simp add: init_def failing_framework_def example_framework_def example_documents_def
      and_then_def invoke_def new_def create_subagent_def Let_def succeed_def format_default
      subagent_for_def)

subsection \<open>The dict built by the loop\<close>

lemma update_fresh: "k \<notin> fst ` set al \<Longrightarrow> AList.update k v al = al @ [(k, v)]"
  by (induction al) auto

lemma fold_update_keys:
  "fst ` set (fold (\<lambda>(k, d). AList.update k (g k d)) items al) = fst ` set al \<union> fst ` set items"
  by (induction items arbitrary: al) (auto simp: dom_update split: prod.splits)

lemma fold_update_fresh:
  "distinct (map fst items) \<Longrightarrow> fst ` set items \<inter> fst ` set al = {} \<Longrightarrow>
   fold (\<lambda>(k, d). AList.update k (g k d)) items al = al @ map (\<lambda>(k, d). (k, g k d)) items"
proof (induction items arbitrary: al)
  case Nil
  then show ?case by simp
next
  case (Cons item items)
  obtain k d where item: "item = (k, d)" by (cases item)
  from Cons.prems have fresh: "k \<notin> fst ` set al" by (auto simp: item)
  from Cons.prems have "distinct (map fst items)"
    and "fst ` set items \<inter> fst ` set (al @ [(k, g k d)]) = {}"
    by (auto simp: item)
  from Cons.IH [OF this] show ?case
    by (simp add: item update_fresh [OF fresh])
qed

lemma fold_update_value:
  "map_of (fold (\<lambda>(k, d). AList.update k (g k d)) items al) k = Some a \<Longrightarrow>
   (\<exists>d. (k, d) \<in> set items \<and> a = g k d) \<or> map_of al k = Some a"
proof (induction items arbitrary: al)
  case Nil
  then show ?case by simp
next
  case (Cons item items)
  obtain k' d' where item: "item = (k', d')" by (cases item)
  from Cons.prems have
    "map_of (fold (\<lambda>(k, d). AList.update k (g k d)) items (AList.update k' (g k' d') al)) k = Some a"
    by (simp add: item)
  from Cons.IH [OF this] show ?case
    by (auto simp: item update_conv' split: if_splits)
qed

lemma map_index_id_nodes: "map index_id (map (\<lambda>(k, d). IndexNode (f k) k) items) = map fst items"
  by (induction items) auto

lemma map_fst_pairs: "map fst (map (\<lambda>(k, d). (k, g k d)) items) = map fst items"
  by (induction items) auto

lemma is_dict_example: "is_dict example_documents"
  by (simp add: is_dict_def example_documents_def)

lemma keys_example: "map fst example_documents = [''alpha'', ''beta'']"
  by (simp add: example_documents_def)

subsection \<open>What the constructor leaves in \<open>self\<close>\<close>

lemma routing_nodes_init:
  assumes "init fw agent_documents agent service_context tr = (Inr self, tr')"
  shows "routing_nodes self = map (\<lambda>(k, d). IndexNode (summary_text k) k) agent_documents"
  using init_Inr [OF assms] by (auto simp: routing_nodes_def routing_retriever_def)

lemma routing_retriever_init:
  assumes "init fw agent_documents agent service_context tr = (Inr self, tr')"
  shows "routing_retriever self =
     Some (as_retriever (VectorStoreIndex (routing_nodes self)
       (case service_context of None \<Rightarrow> default_context fw | Some c \<Rightarrow> c)) 1)"
  using init_Inr [OF assms] by (auto simp: routing_nodes_def routing_retriever_def)

lemma sub_agents_init:
  assumes "init fw agent_documents agent service_context tr = (Inr self, tr')"
  shows "sub_agents self =
     fold (\<lambda>(k, d). AList.update k
        (subagent_for (case service_context of None \<Rightarrow> default_context fw | Some c \<Rightarrow> c)
           agent k d))
       agent_documents []"
  using init_Inr [OF assms] by (auto simp: sub_agents_def)

lemma sub_agents_init_dict:
  assumes "init fw agent_documents agent service_context tr = (Inr self, tr')"
    and "is_dict agent_documents"
  shows "sub_agents self =
     map (\<lambda>(k, d). (k, subagent_for
            (case service_context of None \<Rightarrow> default_context fw | Some c \<Rightarrow> c) agent k d))
       agent_documents"
  using assms(2) by (simp add: sub_agents_init [OF assms(1)] fold_update_fresh is_dict_def)

text \<open>
  C1. For every mapping passed to the constructor, once the constructor has returned,
  \<open>query_keys()\<close> returns the keys of that mapping and nothing else, as a set.
\<close>

theorem query_keys_exact:
  assumes "init fw agent_documents agent service_context tr = (Inr self, tr')"
  shows "set (query_keys self) = fst ` set agent_documents"
proof -
  from init_Inr [OF assms] obtain sc where
    "keys self = map fst
       (fold (\<lambda>(k, d). AList.update k (subagent_for sc agent k d)) agent_documents [])"
    by auto
  then show ?thesis
    by (simp add: query_keys_def fold_update_keys)
qed

theorem query_keys_exact_witness:
  "\<exists>self tr'. init example_framework example_documents (BaseAgent ''agent'') None [] =
       (Inr self, tr') \<and>
     set (query_keys self) = {''alpha'', ''beta''}"
proof -
  from example_init obtain self tr' where
    run: "init example_framework example_documents (BaseAgent ''agent'') None [] = (Inr self, tr')"
    by blast
  from query_keys_exact [OF run] have "set (query_keys self) = set (map fst example_documents)"
    by simp
  then have "set (query_keys self) = {''alpha'', ''beta''}"
    by (simp only: keys_example) simp
  with run show ?thesis by blast
qed

text \<open>
  C2. After construction from a dict, the identifiers of the routing nodes, in order, are
  the keys of the dict, and so are the keys of the sub-agent map: there is one routing
  node per key, no identifier occurs twice, the number of routing nodes is the number of
  keys, and the set of identifiers is the set of sub-agent keys.
\<close>

theorem routing_nodes_match_sub_agents:
  assumes "init fw agent_documents agent service_context tr = (Inr self, tr')"
    and "is_dict agent_documents"
  shows "map index_id (routing_nodes self) = map fst agent_documents \<and>
         map fst (sub_agents self) = map fst agent_documents \<and>
         distinct (map index_id (routing_nodes self)) \<and>
         length (routing_nodes self) = card (fst ` set agent_documents) \<and>
         index_id ` set (routing_nodes self) = fst ` set (sub_agents self)"
proof -
  have ids: "map index_id (routing_nodes self) = map fst agent_documents"
    unfolding routing_nodes_init [OF assms(1)] by (rule map_index_id_nodes)
  have ks: "map fst (sub_agents self) = map fst agent_documents"
    unfolding sub_agents_init_dict [OF assms] by (rule map_fst_pairs)
  from assms(2) have d: "distinct (map fst agent_documents)"
    by (simp add: is_dict_def)
  have "length (routing_nodes self) = length (map fst agent_documents)"
    by (simp add: routing_nodes_init [OF assms(1)])
  also have "\<dots> = card (set (map fst agent_documents))"
    using d by (simp only: distinct_card)
  finally have n: "length (routing_nodes self) = card (fst ` set agent_documents)"
    by simp
  have "set (map index_id (routing_nodes self)) = set (map fst (sub_agents self))"
    by (simp only: ids ks)
  then have s: "index_id ` set (routing_nodes self) = fst ` set (sub_agents self)"
    by simp
  from ids ks d n s show ?thesis by simp
qed

theorem routing_nodes_match_sub_agents_witness:
  "\<exists>self tr'. init example_framework example_documents (BaseAgent ''agent'') None [] =
       (Inr self, tr') \<and>
     is_dict example_documents \<and>
     map index_id (routing_nodes self) = [''alpha'', ''beta''] \<and>
     map fst (sub_agents self) = [''alpha'', ''beta''] \<and>
     length (routing_nodes self) = 2"
proof -
  from example_init obtain self tr' where
    run: "init example_framework example_documents (BaseAgent ''agent'') None [] = (Inr self, tr')"
    by blast
  note inst = routing_nodes_match_sub_agents [OF run is_dict_example]
  from inst have ids: "map index_id (routing_nodes self) = [''alpha'', ''beta'']"
    and ks: "map fst (sub_agents self) = [''alpha'', ''beta'']"
    by (simp_all only: keys_example)
  from ids have "length (map index_id (routing_nodes self)) = 2"
    by (simp only:) simp
  then have "length (routing_nodes self) = 2" by simp
  with run is_dict_example ids ks show ?thesis by auto
qed

text \<open>
  C5. After construction, the routing nodes are one per item of the mapping, in order;
  the identifier of each is its key, and its text is \<open>DEFAULT_SUMMARY\<close> with both
  \<open>{key}\<close> fields replaced by the key: "This content contains information about" the
  key, and the two sentences that follow. Neither \<open>query\<close> nor \<open>query_keys\<close> returns a
  changed \<open>self\<close>, so the nodes stay as the constructor made them.
\<close>

theorem routing_node_text_and_id:
  assumes "init fw agent_documents agent service_context tr = (Inr self, tr')"
  shows "map index_id (routing_nodes self) = map fst agent_documents \<and>
    (\<forall>n \<in> set (routing_nodes self).
       format_key DEFAULT_SUMMARY (index_id n) = Inr (node_text n) \<and>
       node_text n =
         [CHR 0x0A] @ ''This content contains information about '' @ index_id n @ ''.'' @
         [CHR 0x0A] @ ''Use this index if you need to lookup specific facts about '' @
           index_id n @ ''.'' @
         [CHR 0x0A] @ ''Do not use this index if you want to analyze multiple keys.'' @
         [CHR 0x0A])"
proof -
  have nodes: "routing_nodes self = map (\<lambda>(k, d). IndexNode (summary_text k) k) agent_documents"
    by (rule routing_nodes_init [OF assms])
  have "map index_id (routing_nodes self) = map fst agent_documents"
    unfolding nodes by (rule map_index_id_nodes)
  moreover have "\<forall>n \<in> set (routing_nodes self). node_text n = summary_text (index_id n)"
    by (auto simp: nodes)
  ultimately show ?thesis
    by (simp add: format_default) (simp add: summary_text_def)
qed

theorem routing_node_text_and_id_witness:
  "\<exists>self tr'. init example_framework example_documents (BaseAgent ''agent'') None [] =
       (Inr self, tr') \<and>
     map index_id (routing_nodes self) = [''alpha'', ''beta''] \<and>
     node_text (routing_nodes self ! 0) =
       [CHR 0x0A] @ ''This content contains information about alpha.'' @
       [CHR 0x0A] @ ''Use this index if you need to lookup specific facts about alpha.'' @
       [CHR 0x0A] @ ''Do not use this index if you want to analyze multiple keys.'' @
       [CHR 0x0A]"
proof -
  from example_init obtain self tr' where
    run: "init example_framework example_documents (BaseAgent ''agent'') None [] = (Inr self, tr')"
    by blast
  note inst = routing_node_text_and_id [OF run]
  from inst have ids: "map index_id (routing_nodes self) = [''alpha'', ''beta'']"
    by (simp only: keys_example)
  then have len: "length (routing_nodes self) = 2" and id0: "index_id (routing_nodes self ! 0) = ''alpha''"
    by (auto simp: map_eq_Cons_conv)
  from len have "routing_nodes self ! 0 \<in> set (routing_nodes self)"
    by simp
  with inst have "node_text (routing_nodes self ! 0) =
      [CHR 0x0A] @ ''This content contains information about '' @
        index_id (routing_nodes self ! 0) @ ''.'' @
      [CHR 0x0A] @ ''Use this index if you need to lookup specific facts about '' @
        index_id (routing_nodes self ! 0) @ ''.'' @
      [CHR 0x0A] @ ''Do not use this index if you want to analyze multiple keys.'' @
      [CHR 0x0A]"
    by blast
  then have "node_text (routing_nodes self ! 0) =
       [CHR 0x0A] @ ''This content contains information about alpha.'' @
       [CHR 0x0A] @ ''Use this index if you need to lookup specific facts about alpha.'' @
       [CHR 0x0A] @ ''Do not use this index if you want to analyze multiple keys.'' @
       [CHR 0x0A]"
    by (simp add: id0)
  with run ids show ?thesis by auto
qed

text \<open>
  C9. Constructing with the empty mapping returns a tool spec whenever no framework call
  raises; its \<open>query_keys()\<close> is empty, and it has no routing node and no sub-agent, so
  that a query has no routing target.
\<close>

theorem empty_mapping:
  assumes "\<forall>h c. raises fw h c = None"
  shows "\<exists>self tr'. init fw [] agent service_context tr = (Inr self, tr') \<and>
           query_keys self = [] \<and> routing_nodes self = [] \<and> sub_agents self = []"
proof -
  from quiet_init [OF assms] obtain self tr' where
    run: "init fw [] agent service_context tr = (Inr self, tr')" by blast
  from init_Inr [OF run] have "keys self = []" by auto
  moreover have "routing_nodes self = []"
    by (simp add: routing_nodes_init [OF run])
  moreover have "sub_agents self = []"
    by (simp add: sub_agents_init [OF run])
  ultimately show ?thesis using run by (auto simp: query_keys_def)
qed

theorem empty_mapping_witness:
  "\<exists>self tr'. init example_framework [] (BaseAgent ''agent'') (Some example_context) [] =
       (Inr self, tr') \<and>
     query_keys self = [] \<and> routing_nodes self = [] \<and> sub_agents self = []"
  by (rule empty_mapping [OF quiet_example])

section \<open>Exceptions\<close>

text \<open>
  C8. No method of the class handles an exception. In every run of the constructor and of
  \<open>_create_subagent\<close> each framework call but the last returned, and the run raises
  exactly when its last call raised, with that call's exception; no call follows one that
  raised. \<open>query\<close> returns or raises whatever \<open>self.query_engine.query\<close> returns or
  raises, and \<open>query_keys\<close> reads an attribute.
\<close>

theorem exceptions_propagate:
  "propagates fw (init fw agent_documents agent service_context) \<and>
   propagates fw (create_subagent fw documents sc key agent) \<and>
   query fw self q = RetrieverQueryEngine_query fw (query_engine self) q \<and>
   query_keys self = keys self"
  by (simp add: propagates_init propagates_create_subagent query_def query_keys_def)

theorem exceptions_propagate_witness:
  "\<exists>calls. init failing_framework example_documents (BaseAgent ''agent'') None [] =
      (Inl (FrameworkError ''embedding failed''), calls) \<and>
     length calls = 9 \<and>
     last calls =
       New_document_index (SummaryIndex_from_documents [Document ''doc2'' []] example_context) \<and>
     propagated failing_framework [] calls (Some (FrameworkError ''embedding failed''))"
proof -
  let ?calls = "snd (init failing_framework example_documents (BaseAgent ''agent'') None [])"
  have run: "init failing_framework example_documents (BaseAgent ''agent'') None [] =
      (Inl (FrameworkError ''embedding failed''), ?calls)"
    by (simp add: failing_run)
  have "propagates failing_framework
      (init failing_framework example_documents (BaseAgent ''agent'') None)"
    using exceptions_propagate [of failing_framework example_documents "BaseAgent ''agent''" None]
    by blast
  with run have "\<exists>cs. ?calls = [] @ cs \<and>
      propagated failing_framework [] cs
        (exception_of (Inl (FrameworkError ''embedding failed'') ::
           error + recursive_retriever_tool_spec))"
    unfolding propagates_def by blast
  then have p: "propagated failing_framework [] ?calls (Some (FrameworkError ''embedding failed''))"
    by simp
  have "length ?calls = 9"
    and "last ?calls =
       New_document_index (SummaryIndex_from_documents [Document ''doc2'' []] example_context)"
    by (simp_all add: failing_run)
  with run p show ?thesis by auto
qed

section \<open>Queries\<close>

lemma retrieve_length: "length (retrieve fw (as_retriever idx k) q) \<le> k"
  by (simp add: retrieve_def)

lemma retrieve_subset: "set (retrieve fw r q) \<subseteq> set (indexed_nodes (retriever_index r))"
proof -
  have "set (retrieve fw r q) \<subseteq>
      set (sort_key (\<lambda>n. - similarity fw q (node_text n)) (indexed_nodes (retriever_index r)))"
    unfolding retrieve_def by (rule set_take_subset)
  then show ?thesis by simp
qed

lemma sub_agents_keys:
  assumes "init fw agent_documents agent service_context tr = (Inr self, tr')"
  shows "fst ` set (sub_agents self) = fst ` set agent_documents"
  by (simp add: sub_agents_init [OF assms] fold_update_keys)

lemma sub_agents_value:
  assumes "init fw agent_documents agent service_context tr = (Inr self, tr')"
    and "map_of (sub_agents self) k = Some a"
  shows "\<exists>d. (k, d) \<in> set agent_documents \<and>
     a = subagent_for (case service_context of None \<Rightarrow> default_context fw | Some c \<Rightarrow> c)
           agent k d"
  using fold_update_value [OF assms(2) [unfolded sub_agents_init [OF assms(1)]]]
  by simp

lemma routing_ids:
  assumes "init fw agent_documents agent service_context tr = (Inr self, tr')"
  shows "index_id ` set (routing_nodes self) = fst ` set agent_documents"
proof -
  have "set (map index_id (routing_nodes self)) = set (map fst agent_documents)"
    unfolding routing_nodes_init [OF assms] by (simp only: map_index_id_nodes)
  then show ?thesis by simp
qed

lemma query_engine_init:
  assumes "init fw agent_documents agent service_context tr0 = (Inr self, tr1)"
    and "routing_retriever self = Some R"
  shows "query_engine self =
     RetrieverQueryEngine_from_args
       (RecursiveRetriever ''vector'' [(''vector'', R)] (sub_agents self) True)
       (get_response_synthesizer
          (case service_context of None \<Rightarrow> default_context fw | Some c \<Rightarrow> c) ''compact'')
       (case service_context of None \<Rightarrow> default_context fw | Some c \<Rightarrow> c)"
  using init_Inr [OF assms(1)] assms(2)
  by (auto simp: routing_retriever_def sub_agents_def)

lemma routed_key:
  assumes init: "init fw agent_documents agent service_context tr0 = (Inr self, tr1)"
    and R: "routing_retriever self = Some R"
    and found: "map index_id (retrieve fw R q) = [k]"
  shows "k \<in> fst ` set agent_documents" and "\<exists>a. map_of (sub_agents self) k = Some a"
proof -
  from found obtain n where n: "retrieve fw R q = [n]" "index_id n = k"
    by (auto simp: map_eq_Cons_conv)
  from R have "indexed_nodes (retriever_index R) = routing_nodes self"
    by (simp add: routing_nodes_def)
  with retrieve_subset [of fw R q] n have "n \<in> set (routing_nodes self)"
    by auto
  with n have "k \<in> index_id ` set (routing_nodes self)" by auto
  then show k: "k \<in> fst ` set agent_documents"
    by (simp only: routing_ids [OF init])
  then have "k \<in> fst ` set (sub_agents self)"
    by (simp only: sub_agents_keys [OF init])
  then have "map_of (sub_agents self) k \<noteq> None"
    by (simp add: map_of_eq_None_iff)
  then show "\<exists>a. map_of (sub_agents self) k = Some a" by auto
qed

text \<open>Every run of a query that routing resolves to the key \<open>k\<close>.\<close>

lemma query_run:
  assumes init: "init fw agent_documents agent service_context tr0 = (Inr self, tr1)"
    and R: "routing_retriever self = Some R"
    and found: "map index_id (retrieve fw R q) = [k]"
    and a: "map_of (sub_agents self) k = Some a"
  shows "query fw self q tr =
    (case raises fw tr (Retrieve R q) of
       Some e \<Rightarrow> (Inl e, tr @ [Retrieve R q])
     | None \<Rightarrow>
       (case raises fw (tr @ [Retrieve R q]) (Agent_query k a q) of
          Some e \<Rightarrow> (Inl e, tr @ [Retrieve R q, Agent_query k a q])
        | None \<Rightarrow>
          (case raises fw (tr @ [Retrieve R q, Agent_query k a q])
                  (Synthesize (rqe_synthesizer (query_engine self)) q [agent_response fw a q]) of
             Some e \<Rightarrow>
               (Inl e, tr @ [Retrieve R q, Agent_query k a q,
                  Synthesize (rqe_synthesizer (query_engine self)) q [agent_response fw a q]])
           | None \<Rightarrow>
               (Inr (synthesize fw (rqe_synthesizer (query_engine self)) q [agent_response fw a q]),
                tr @ [Retrieve R q, Agent_query k a q,
                  Synthesize (rqe_synthesizer (query_engine self)) q [agent_response fw a q]]))))"
proof -
  from found obtain n where n: "retrieve fw R q = [n]" "index_id n = k"
    by (auto simp: map_eq_Cons_conv)
  show ?thesis
    by (simp add: query_def query_engine_init [OF init R] n a and_then_def invoke_def succeed_def
        split: option.splits)
qed

subsection \<open>The example scenario\<close>

lemma example_nodes:
  assumes "init example_framework example_documents (BaseAgent ''agent'') None [] = (Inr self, tr')"
  shows "routing_nodes self =
    [IndexNode (summary_text ''alpha'') ''alpha'', IndexNode (summary_text ''beta'') ''beta'']"
  by (simp add: routing_nodes_init [OF assms] example_documents_def)

lemma example_retriever:
  assumes "init example_framework example_documents (BaseAgent ''agent'') None [] = (Inr self, tr')"
  shows "routing_retriever self =
    Some (as_retriever
      (VectorStoreIndex
         [IndexNode (summary_text ''alpha'') ''alpha'', IndexNode (summary_text ''beta'') ''beta'']
         example_context) 1)"
  by (simp add: routing_retriever_init [OF assms] example_nodes [OF assms] example_framework_def)

lemma example_similarity:
  "similarity example_framework ''beta'' (summary_text ''alpha'') = 0"
  "similarity example_framework ''beta'' (summary_text ''beta'') = 1"
  by (simp_all add: example_framework_def summary_text_def sublist_Cons_right)

lemma example_retrieve:
  "map index_id (retrieve example_framework
     (as_retriever
        (VectorStoreIndex
           [IndexNode (summary_text ''alpha'') ''alpha'', IndexNode (summary_text ''beta'') ''beta'']
           example_context) 1) ''beta'') = [''beta'']"
  by (simp add: retrieve_def example_similarity)

subsection \<open>Routing\<close>

text \<open>
  C4. After construction the retriever dict holds one retriever, the root \<open>vector\<close>; it
  is the retriever of one index over all the routing nodes, one per item of the mapping,
  and its \<open>similarity_top_k\<close> is 1. For every query it therefore resolves to at most one
  key, and that key is a key of the mapping.
\<close>

theorem routing_top_1:
  assumes "init fw agent_documents agent service_context tr = (Inr self, tr')"
  shows "\<exists>R. retriever_dict (rqe_retriever (query_engine self)) = [(''vector'', R)] \<and>
           routing_retriever self = Some R \<and>
           indexed_nodes (retriever_index R) = routing_nodes self \<and>
           length (routing_nodes self) = length agent_documents \<and>
           similarity_top_k R = 1 \<and>
           (\<forall>q. length (map index_id (retrieve fw R q)) \<le> 1 \<and>
                set (map index_id (retrieve fw R q)) \<subseteq> fst ` set agent_documents)"
proof -
  define sc where "sc = (case service_context of None \<Rightarrow> default_context fw | Some c \<Rightarrow> c)"
  define R where "R = as_retriever (VectorStoreIndex (routing_nodes self) sc) 1"
  have R: "routing_retriever self = Some R"
    unfolding R_def sc_def by (rule routing_retriever_init [OF assms])
  have dict: "retriever_dict (rqe_retriever (query_engine self)) = [(''vector'', R)]"
    by (simp add: query_engine_init [OF assms R])
  have len: "length (routing_nodes self) = length agent_documents"
    by (simp add: routing_nodes_init [OF assms])
  have one: "length (map index_id (retrieve fw R q)) \<le> 1" for q
    using retrieve_length [of fw "VectorStoreIndex (routing_nodes self) sc" 1 q]
    by (simp add: R_def)
  have sub: "set (map index_id (retrieve fw R q)) \<subseteq> fst ` set agent_documents" for q
  proof -
    have "set (retrieve fw R q) \<subseteq> set (routing_nodes self)"
      using retrieve_subset [of fw R q] by (simp add: R_def)
    then have "index_id ` set (retrieve fw R q) \<subseteq> index_id ` set (routing_nodes self)"
      by (rule image_mono)
    then show ?thesis
      by (simp only: routing_ids [OF assms] set_map)
  qed
  from R dict len one sub show ?thesis
    by (intro exI [of _ R]) (simp add: R_def)
qed

theorem routing_top_1_witness:
  "\<exists>self tr' R. init example_framework example_documents (BaseAgent ''agent'') None [] =
       (Inr self, tr') \<and>
     routing_retriever self = Some R \<and> similarity_top_k R = 1 \<and>
     length (routing_nodes self) = 2 \<and>
     map index_id (retrieve example_framework R ''beta'') = [''beta'']"
proof -
  from example_init obtain self tr' where
    run: "init example_framework example_documents (BaseAgent ''agent'') None [] = (Inr self, tr')"
    by blast
  from routing_top_1 [OF run] obtain R where
    R: "routing_retriever self = Some R" and k: "similarity_top_k R = 1"
    and len: "length (routing_nodes self) = length example_documents"
    by blast
  from len have len2: "length (routing_nodes self) = 2"
    by (simp add: example_documents_def)
  from R example_retriever [OF run] have "R = as_retriever
      (VectorStoreIndex
         [IndexNode (summary_text ''alpha'') ''alpha'', IndexNode (summary_text ''beta'') ''beta'']
         example_context) 1"
    by simp
  then have "map index_id (retrieve example_framework R ''beta'') = [''beta'']"
    by (simp only: example_retrieve)
  with run R k len2 show ?thesis by auto
qed

subsection \<open>Delegation\<close>

text \<open>
  C6. After construction, for every query that the routing retriever resolves to the key
  \<open>k\<close>: \<open>k\<close> is a key of the mapping, the sub-agent map binds it to the agent made from
  the documents given under \<open>k\<close>, and in every run of \<open>query\<close> the sub-agents queried are
  that one agent, once, and no other (none at all when the retrieval call itself raises).
\<close>

theorem query_consults_one_sub_agent:
  assumes "init fw agent_documents agent service_context tr0 = (Inr self, tr1)"
    and "routing_retriever self = Some R"
    and "map index_id (retrieve fw R q) = [k]"
    and "query fw self q tr = (r, tr')"
  shows "\<exists>d a calls. (k, d) \<in> set agent_documents \<and>
       map_of (sub_agents self) k = Some a \<and>
       a = subagent_for (case service_context of None \<Rightarrow> default_context fw | Some c \<Rightarrow> c)
             agent k d \<and>
       tr' = tr @ calls \<and>
       consulted calls = (if raises fw tr (Retrieve R q) = None then [(k, a)] else [])"
proof -
  from routed_key [OF assms(1-3)] obtain a where
    a: "map_of (sub_agents self) k = Some a"
    by blast
  from sub_agents_value [OF assms(1) a] obtain d where
    d: "(k, d) \<in> set agent_documents"
      "a = subagent_for (case service_context of None \<Rightarrow> default_context fw | Some c \<Rightarrow> c)
             agent k d"
    by blast
  from assms(4) have "\<exists>calls. tr' = tr @ calls \<and>
      consulted calls = (if raises fw tr (Retrieve R q) = None then [(k, a)] else [])"
    unfolding query_run [OF assms(1-3) a]
    by (auto split: option.splits)
  with a d show ?thesis by blast
qed

theorem query_consults_one_sub_agent_witness:
  "\<exists>self tr1 r tr'. init example_framework example_documents (BaseAgent ''agent'') None [] =
       (Inr self, tr1) \<and>
     query example_framework self ''beta'' [] = (r, tr') \<and>
     map fst (consulted tr') = [''beta'']"
proof -
  from example_init obtain self tr1 where
    run: "init example_framework example_documents (BaseAgent ''agent'') None [] = (Inr self, tr1)"
    by blast
  note R = example_retriever [OF run]
  obtain r tr' where q: "query example_framework self ''beta'' [] = (r, tr')"
    by (cases "query example_framework self ''beta'' []")
  from query_consults_one_sub_agent [OF run R example_retrieve q] quiet_example
  have "map fst (consulted tr') = [''beta'']"
    by auto
  with run q show ?thesis by auto
qed

subsection \<open>Synthesis\<close>

text \<open>
  C7. After construction the response synthesizer of the query engine is in response mode
  \<open>compact\<close>. For every query that the routing retriever resolves to the key \<open>k\<close>, an
  answer that \<open>query\<close> returns is what that synthesizer makes of the answer of the
  sub-agent bound to \<open>k\<close>: the calls of the run are the retrieval, the query to that
  sub-agent and the synthesis, in this order. \<open>query\<close> does return when no call raises.
\<close>

theorem query_answer_synthesized:
  assumes "init fw agent_documents agent service_context tr0 = (Inr self, tr1)"
    and "routing_retriever self = Some R"
    and "map index_id (retrieve fw R q) = [k]"
  shows "response_mode (rqe_synthesizer (query_engine self)) = ''compact'' \<and>
    (\<forall>answer tr'. query fw self q tr = (Inr answer, tr') \<longrightarrow>
       (\<exists>a. map_of (sub_agents self) k = Some a \<and>
          answer = synthesize fw (rqe_synthesizer (query_engine self)) q [agent_response fw a q] \<and>
          tr' = tr @ [Retrieve R q, Agent_query k a q,
            Synthesize (rqe_synthesizer (query_engine self)) q [agent_response fw a q]])) \<and>
    ((\<forall>h c. raises fw h c = None) \<longrightarrow> (\<exists>answer tr'. query fw self q tr = (Inr answer, tr')))"
proof -
  from routed_key [OF assms] obtain a where a: "map_of (sub_agents self) k = Some a"
    by blast
  have mode: "response_mode (rqe_synthesizer (query_engine self)) = ''compact''"
    by (simp add: query_engine_init [OF assms(1,2)])
  have ret: "\<exists>a. map_of (sub_agents self) k = Some a \<and>
          answer = synthesize fw (rqe_synthesizer (query_engine self)) q [agent_response fw a q] \<and>
          tr' = tr @ [Retrieve R q, Agent_query k a q,
            Synthesize (rqe_synthesizer (query_engine self)) q [agent_response fw a q]]"
    if "query fw self q tr = (Inr answer, tr')" for answer tr'
    using that a unfolding query_run [OF assms a]
    by (auto split: option.splits)
  have quiet: "\<exists>answer tr'. query fw self q tr = (Inr answer, tr')"
    if "\<forall>h c. raises fw h c = None"
    unfolding query_run [OF assms a] using that by simp
  from mode ret quiet show ?thesis by blast
qed

theorem query_answer_synthesized_witness:
  "\<exists>self tr1 answer tr'. init example_framework example_documents (BaseAgent ''agent'') None [] =
       (Inr self, tr1) \<and>
     query example_framework self ''beta'' [] = (Inr answer, tr') \<and>
     response_mode (rqe_synthesizer (query_engine self)) = ''compact'' \<and>
     answer = ''compact: answer of Useful for summarization questions related to beta''"
proof -
  from example_init obtain self tr1 where
    run: "init example_framework example_documents (BaseAgent ''agent'') None [] = (Inr self, tr1)"
    by blast
  note R = example_retriever [OF run]
  note inst = query_answer_synthesized [OF run R example_retrieve, of "[]"]
  from inst quiet_example obtain answer tr' where
    q: "query example_framework self ''beta'' [] = (Inr answer, tr')"
    by blast
  from inst have mode: "response_mode (rqe_synthesizer (query_engine self)) = ''compact''"
    by blast
  from inst q obtain a where a: "map_of (sub_agents self) ''beta'' = Some a"
    and ans: "answer = synthesize example_framework (rqe_synthesizer (query_engine self)) ''beta''
       [agent_response example_framework a ''beta'']"
    by blast
  from a have "a = subagent_for example_context (BaseAgent ''agent'') ''beta'' [Document ''doc2'' []]"
    by (simp add: sub_agents_init_dict [OF run is_dict_example] example_documents_def
        example_framework_def)
  with ans mode have
    "answer = ''compact: answer of Useful for summarization questions related to beta''"
    by (simp add: example_framework_def subagent_for_def)
  with run q mode show ?thesis by auto
qed

end
